theory Spec2Isabelle
  imports Complex_Main
begin

section \<open>The drawing page of src/pages/index.tsx\<close>

text \<open>
  The page is one React component, \<open>Home\<close>. It keeps two state values
  (\<open>perspective\<close>, \<open>strokeHistory\<close>) and a reference to its canvas element, and it draws
  by calling methods of the canvas's 2d context. The model passes the component's
  values explicitly: every handler takes the component as it is when the handler runs
  and returns it as it is when the handler has returned and the state updates it
  requested have been applied.

  A JavaScript \<open>number\<close> is a double (IEEE 754 binary64). The model carries the value of
  a finite double as a real number, and every arithmetic operation of the source rounds
  its exact result to the nearest double, as the double operation does. The two
  infinities and NaN are outside the model, and with them an operation whose result
  lies beyond the largest double.
\<close>

type_synonym number = real

subsection \<open>Double arithmetic\<close>

text \<open>\<open>pow2 e\<close> is two to the integer power \<open>e\<close>.\<close>

definition pow2 :: "int \<Rightarrow> real" where
  "pow2 e = (if 0 \<le> e then 2 ^ nat e else 1 / 2 ^ nat (- e))"

text \<open>
  \<open>ilog2 n\<close> is the position of the leading bit of a positive integer \<open>n\<close>, and
  \<open>exponent x\<close> is the binary exponent of a positive real \<open>x\<close>: the \<open>e\<close> with
  \<open>pow2 e \<le> x < pow2 (e + 1)\<close>.
\<close>

function ilog2 :: "int \<Rightarrow> int" where
  "ilog2 n = (if n < 2 then 0 else 1 + ilog2 (n div 2))"
  by pat_completeness auto
termination
  by (relation "measure nat") auto

definition exponent :: "real \<Rightarrow> int" where
  "exponent x =
     (if 1 \<le> x then ilog2 \<lfloor>x\<rfloor>
      else (let k = ilog2 \<lfloor>1 / x\<rfloor>
            in if x * pow2 k = 1 then - k else - k - 1))"

text \<open>\<open>rne q\<close> is the integer nearest to \<open>q\<close>, the even one of the two when \<open>q\<close> is halfway.\<close>

definition rne :: "real \<Rightarrow> int" where
  "rne q =
     (let f = \<lfloor>q\<rfloor>; d = q - of_int f
      in if d < 1 / 2 then f else if 1 / 2 < d then f + 1 else if even f then f else f + 1)"

text \<open>
  \<open>fl x\<close> is the double nearest to \<open>x\<close> (round to nearest, ties to even): a double has a
  significand of 53 bits, so the doubles around \<open>x\<close> are the multiples of
  \<open>pow2 (exponent \<bar>x\<bar> - 52)\<close>, and of \<open>pow2 (- 1074)\<close> in the subnormal range. \<open>double x\<close>
  says that \<open>x\<close> is the value of a finite double.
\<close>

definition fl :: "real \<Rightarrow> number" where
  "fl x =
     (if x = 0 then 0
      else (let a = \<bar>x\<bar>; e = max (exponent a - 52) (- 1074); m = rne (a / pow2 e)
            in sgn x * of_int m * pow2 e))"

definition double :: "number \<Rightarrow> bool" where
  "double x = (fl x = x \<and> (x = 0 \<or> exponent \<bar>x\<bar> < 1024))"

text \<open>The operators \<open>+\<close>, \<open>-\<close>, \<open>*\<close> and \<open>/\<close> of the source.\<close>

definition fadd :: "number \<Rightarrow> number \<Rightarrow> number" where
  "fadd a b = fl (a + b)"

definition fsub :: "number \<Rightarrow> number \<Rightarrow> number" where
  "fsub a b = fl (a - b)"

definition fmul :: "number \<Rightarrow> number \<Rightarrow> number" where
  "fmul a b = fl (a * b)"

definition fdiv :: "number \<Rightarrow> number \<Rightarrow> number" where
  "fdiv a b = fl (a / b)"

subsection \<open>The constants of the page\<close>

type_synonym Perspective = "number \<times> number"
type_synonym Stroke = "number \<times> number"
type_synonym StrokeHistory = "Stroke list"

definition CANVAS_WIDTH :: number where
  "CANVAS_WIDTH = 800"

definition CANVAS_HEIGHT :: number where
  "CANVAS_HEIGHT = 600"

subsection \<open>The canvas and its 2d context\<close>

text \<open>
  The context is an object of the browser. What the page does to it is the sequence of
  method calls it makes, so the context is modelled as the list of the calls it has
  received, oldest first. Each method appends its call.
\<close>

datatype call =
    ClearRect number number number number
  | BeginPath
  | MoveTo number number
  | LineTo number number
  | StrokeCall

type_synonym context2d = "call list"

definition clearRect :: "context2d \<Rightarrow> number \<Rightarrow> number \<Rightarrow> number \<Rightarrow> number \<Rightarrow> context2d" where
  "clearRect ctx x y w h = ctx @ [ClearRect x y w h]"

definition beginPath :: "context2d \<Rightarrow> context2d" where
  "beginPath ctx = ctx @ [BeginPath]"

definition moveTo :: "context2d \<Rightarrow> number \<Rightarrow> number \<Rightarrow> context2d" where
  "moveTo ctx x y = ctx @ [MoveTo x y]"

definition lineTo :: "context2d \<Rightarrow> number \<Rightarrow> number \<Rightarrow> context2d" where
  "lineTo ctx x y = ctx @ [LineTo x y]"

definition stroke :: "context2d \<Rightarrow> context2d" where
  "stroke ctx = ctx @ [StrokeCall]"

text \<open>
  A canvas element: \<open>getContext\<close> is what \<open>canvas.getContext("2d")\<close> yields (\<open>None\<close> for
  \<open>null\<close>).
\<close>

record canvas =
  getContext :: "context2d option"

text \<open>
  What a call of \<open>canvas.getBoundingClientRect()\<close> returns: \<open>rect_left\<close> and \<open>rect_top\<close>
  are its \<open>left\<close> and \<open>top\<close>. The browser computes the rectangle anew at each call.
\<close>

record DOMRect =
  rect_left :: number
  rect_top :: number

text \<open>
  \<open>canvas.toDataURL()\<close> encodes the pixels of the canvas. The pixels are determined by
  the calls the context has received, which stand for the encoded image here.
\<close>

definition toDataURL :: "canvas \<Rightarrow> call list" where
  "toDataURL c = (case getContext c of None \<Rightarrow> [] | Some ctx \<Rightarrow> ctx)"

subsection \<open>The component\<close>

text \<open>A download started by a click on a link: the link's \<open>download\<close> name and its \<open>href\<close>.\<close>

record link =
  download :: string
  href :: "call list"

text \<open>
  \<open>perspective\<close> and \<open>strokeHistory\<close> are the two \<open>useState\<close> values and \<open>canvasRef\<close> is
  \<open>canvasRef.current\<close> (\<open>None\<close> for \<open>null\<close>). \<open>clicked\<close> lists the links the page has
  clicked, oldest first.
\<close>

record home =
  perspective :: Perspective
  strokeHistory :: StrokeHistory
  canvasRef :: "canvas option"
  clicked :: "link list"

text \<open>
  The body of \<open>strokeHistory.forEach\<close> in the render effect and in \<open>handleUndoStroke\<close>:
  for each stroke, in the order of the array, \<open>lineTo\<close> and then \<open>stroke\<close>.
\<close>

fun forEach_stroke :: "StrokeHistory \<Rightarrow> context2d \<Rightarrow> context2d" where
  "forEach_stroke [] ctx = ctx"
| "forEach_stroke (s # rest) ctx = forEach_stroke rest (stroke (lineTo ctx (fst s) (snd s)))"

text \<open>The render effect (\<open>useEffect\<close>, lines 16 to 34).\<close>

definition renderEffect :: "home \<Rightarrow> home" where
  "renderEffect h =
     (case canvasRef h of
        None \<Rightarrow> h
      | Some canvas \<Rightarrow>
          (case getContext canvas of
             None \<Rightarrow> h
           | Some ctx \<Rightarrow>
               let ctx = clearRect ctx 0 0 CANVAS_WIDTH CANVAS_HEIGHT;
                   ctx = beginPath ctx;
                   ctx = moveTo ctx (fadd (fdiv CANVAS_WIDTH 2) (fst (perspective h)))
                                    (fadd (fdiv CANVAS_HEIGHT 2) (snd (perspective h)));
                   ctx = forEach_stroke (strokeHistory h) ctx
               in h\<lparr>canvasRef := Some (canvas\<lparr>getContext := Some ctx\<rparr>)\<rparr>))"

text \<open>
  The target of a change event: its \<open>name\<close>, and \<open>target_value\<close>, the number that
  \<open>Number(value)\<close> makes of its \<open>value\<close>.
\<close>

record change_event =
  target_name :: string
  target_value :: number

definition handlePerspectiveChange :: "change_event \<Rightarrow> home \<Rightarrow> home" where
  "handlePerspectiveChange e h =
     (let index = (if target_name e = ''perspectiveX'' then 0 else 1 :: nat);
          prev = perspective h;
          newPerspective =
            (if index = 0 then (target_value e, snd prev) else (fst prev, target_value e))
      in h\<lparr>perspective := newPerspective\<rparr>)"

record mouse_event =
  clientX :: number
  clientY :: number

text \<open>
  \<open>handleMouseDown\<close>; \<open>rect\<close> is what its call of \<open>canvas.getBoundingClientRect()\<close>
  returns.
\<close>

definition handleMouseDown :: "mouse_event \<Rightarrow> DOMRect \<Rightarrow> home \<Rightarrow> home" where
  "handleMouseDown e rect h =
     (case canvasRef h of
        None \<Rightarrow> h
      | Some canvas \<Rightarrow>
          (case getContext canvas of
             None \<Rightarrow> h
           | Some ctx \<Rightarrow>
               let x = fsub (clientX e) (rect_left rect);
                   y = fsub (clientY e) (rect_top rect);
                   ctx = lineTo ctx x y;
                   ctx = stroke ctx
               in h\<lparr>canvasRef := Some (canvas\<lparr>getContext := Some ctx\<rparr>),
                     strokeHistory := strokeHistory h @ [(x, y)]\<rparr>))"

definition handleClearCanvas :: "home \<Rightarrow> home" where
  "handleClearCanvas h =
     (case canvasRef h of
        None \<Rightarrow> h
      | Some canvas \<Rightarrow>
          (case getContext canvas of
             None \<Rightarrow> h
           | Some ctx \<Rightarrow>
               let ctx = clearRect ctx 0 0 CANVAS_WIDTH CANVAS_HEIGHT;
                   ctx = beginPath ctx;
                   ctx = moveTo ctx (fadd (fdiv CANVAS_WIDTH 2) (fst (perspective h)))
                                    (fadd (fdiv CANVAS_HEIGHT 2) (snd (perspective h)))
               in h\<lparr>canvasRef := Some (canvas\<lparr>getContext := Some ctx\<rparr>),
                     strokeHistory := []\<rparr>))"

text \<open>
  \<open>newStrokeHistory.pop()\<close> on the copy of the array removes its last element, and
  leaves an empty array empty: \<open>butlast\<close>.
\<close>

definition handleUndoStroke :: "home \<Rightarrow> home" where
  "handleUndoStroke h =
     (case canvasRef h of
        None \<Rightarrow> h
      | Some canvas \<Rightarrow>
          (case getContext canvas of
             None \<Rightarrow> h
           | Some ctx \<Rightarrow>
               let ctx = clearRect ctx 0 0 CANVAS_WIDTH CANVAS_HEIGHT;
                   ctx = beginPath ctx;
                   ctx = moveTo ctx (fadd (fdiv CANVAS_WIDTH 2) (fst (perspective h)))
                                    (fadd (fdiv CANVAS_HEIGHT 2) (snd (perspective h)));
                   newStrokeHistory = butlast (strokeHistory h);
                   ctx = forEach_stroke newStrokeHistory ctx
               in h\<lparr>canvasRef := Some (canvas\<lparr>getContext := Some ctx\<rparr>),
                     strokeHistory := newStrokeHistory\<rparr>))"

text \<open>
  The decimal digits of a natural number, and an integer as a template literal
  prints it.
\<close>

fun digits :: "nat \<Rightarrow> string" where
  "digits n =
     (if n < 10 then [char_of (48 + n)] else digits (n div 10) @ [char_of (48 + n mod 10)])"

definition string_of_int :: "int \<Rightarrow> string" where
  "string_of_int i = (if i < 0 then ''-'' @ digits (nat (- i)) else digits (nat i))"

text \<open>
  \<open>handleSaveImage\<close>; \<open>r\<close> is the value of its call of \<open>Math.random()\<close>.
\<close>

definition handleSaveImage :: "number \<Rightarrow> home \<Rightarrow> home" where
  "handleSaveImage r h =
     (case canvasRef h of
        None \<Rightarrow> h
      | Some canvas \<Rightarrow>
          let lnk = \<lparr>download = ''perspective-'' @ string_of_int \<lfloor>fmul r 1000\<rfloor> @ ''.png'',
                     href = toDataURL canvas\<rparr>
          in h\<lparr>clicked := clicked h @ [lnk]\<rparr>)"

text \<open>
  \<open>handleDrawRandomly\<close>; \<open>rx\<close> and \<open>ry\<close> are the values of its two calls of
  \<open>Math.random()\<close>, in the order of the calls.
\<close>

definition handleDrawRandomly :: "number \<Rightarrow> number \<Rightarrow> home \<Rightarrow> home" where
  "handleDrawRandomly rx ry h =
     (case canvasRef h of
        None \<Rightarrow> h
      | Some canvas \<Rightarrow>
          (case getContext canvas of
             None \<Rightarrow> h
           | Some ctx \<Rightarrow>
               let x = of_int \<lfloor>fmul rx CANVAS_WIDTH\<rfloor>;
                   y = of_int \<lfloor>fmul ry CANVAS_HEIGHT\<rfloor>;
                   ctx = lineTo ctx x y;
                   ctx = stroke ctx
               in h\<lparr>canvasRef := Some (canvas\<lparr>getContext := Some ctx\<rparr>),
                     strokeHistory := strokeHistory h @ [(x, y)]\<rparr>))"

subsection \<open>What the canvas has received\<close>

text \<open>
  \<open>surface_ready\<close>: the canvas reference is set and the canvas yields a 2d context,
  so the two guards at the head of a handler let it through.
\<close>

definition surface_ready :: "home \<Rightarrow> bool" where
  "surface_ready h =
     (case canvasRef h of
        None \<Rightarrow> False
      | Some canvas \<Rightarrow> (case getContext canvas of None \<Rightarrow> False | Some ctx \<Rightarrow> True))"

text \<open>
  \<open>calls h\<close>: every call the context of the page's canvas has received so far (none
  when there is no canvas or no context). \<open>issued h h'\<close>: the calls received between
  \<open>h\<close> and a later \<open>h'\<close>.
\<close>

definition calls :: "home \<Rightarrow> call list" where
  "calls h =
     (case canvasRef h of
        None \<Rightarrow> []
      | Some canvas \<Rightarrow> (case getContext canvas of None \<Rightarrow> [] | Some ctx \<Rightarrow> ctx))"

definition issued :: "home \<Rightarrow> home \<Rightarrow> call list" where
  "issued h h' = drop (length (calls h)) (calls h')"

subsection \<open>The controls and the events of the page\<close>

text \<open>
  The two sliders of the page are \<open><input type="range" min="-200" max="200">\<close> elements
  named \<open>perspectiveX\<close> and \<open>perspectiveY\<close>; both call \<open>handlePerspectiveChange\<close> on
  change. A range input keeps its value between its \<open>min\<close> and its \<open>max\<close>: a value below
  \<open>min\<close> becomes \<open>min\<close> and a value above \<open>max\<close> becomes \<open>max\<close>. \<open>range_value v\<close> is
  the value the element holds when \<open>v\<close> is asked of it. Only the two bounds are
  modelled, not the granularity of the element.
\<close>

datatype slider = PerspectiveX | PerspectiveY

fun slider_name :: "slider \<Rightarrow> string" where
  "slider_name PerspectiveX = ''perspectiveX''"
| "slider_name PerspectiveY = ''perspectiveY''"

definition slider_min :: number where
  "slider_min = - 200"

definition slider_max :: number where
  "slider_max = 200"

definition range_value :: "number \<Rightarrow> number" where
  "range_value v =
     (if v < slider_min then slider_min else if slider_max < v then slider_max else v)"

text \<open>
  The events the page listens to: a change of a slider, a mouse press on the canvas,
  and a click on each of the four buttons. What a handler asks of the browser while it
  runs travels with the event: the bounding rectangle of the canvas at a mouse press,
  and the random numbers a handler draws.
\<close>

datatype event =
    Change slider number
  | MouseDown mouse_event DOMRect
  | ClickUndo
  | ClickRandom number number
  | ClickSave number
  | ClickClear

text \<open>
  One event: its handler runs, the state updates are applied, the component renders
  again and the render effect runs, since every state update of the page stores a new
  array. \<open>handleSaveImage\<close> updates no state, so no render follows it. A handler that
  returned at a guard updated no state either; the effect then stops at the same guard.
\<close>

fun dispatch :: "event \<Rightarrow> home \<Rightarrow> home" where
  "dispatch (Change s v) h =
     renderEffect
       (handlePerspectiveChange \<lparr>target_name = slider_name s, target_value = range_value v\<rparr> h)"
| "dispatch (MouseDown e rect) h = renderEffect (handleMouseDown e rect h)"
| "dispatch ClickUndo h = renderEffect (handleUndoStroke h)"
| "dispatch (ClickRandom rx ry) h = renderEffect (handleDrawRandomly rx ry h)"
| "dispatch (ClickSave r) h = handleSaveImage r h"
| "dispatch ClickClear h = renderEffect (handleClearCanvas h)"

fun run :: "event list \<Rightarrow> home \<Rightarrow> home" where
  "run [] h = h"
| "run (e # es) h = run es (dispatch e h)"

text \<open>
  The page after its first render: the initial values of the two \<open>useState\<close> calls, the
  canvas reference as React has set it, and the render effect run once.
\<close>

definition mount :: "canvas option \<Rightarrow> home" where
  "mount c =
     renderEffect \<lparr>perspective = (0, 0), strokeHistory = [], canvasRef = c, clicked = []\<rparr>"

text \<open>The two ways to add a point, and the point each one adds.\<close>

datatype add_point = FromPointer mouse_event DOMRect | Randomly number number

fun add_event :: "add_point \<Rightarrow> event" where
  "add_event (FromPointer e rect) = MouseDown e rect"
| "add_event (Randomly rx ry) = ClickRandom rx ry"

fun new_point :: "add_point \<Rightarrow> Stroke" where
  "new_point (FromPointer e rect) =
     (fsub (clientX e) (rect_left rect), fsub (clientY e) (rect_top rect))"
| "new_point (Randomly rx ry) =
     (of_int \<lfloor>fmul rx CANVAS_WIDTH\<rfloor>, of_int \<lfloor>fmul ry CANVAS_HEIGHT\<rfloor>)"

text \<open>Both components of the offset within the bounds of the sliders.\<close>

definition in_range :: "Perspective \<Rightarrow> bool" where
  "in_range p =
     (slider_min \<le> fst p \<and> fst p \<le> slider_max \<and> slider_min \<le> snd p \<and> snd p \<le> slider_max)"

text \<open>
  The calls of a redraw: the three calls that clear the canvas and put the pen on the
  anchor, and the two calls each stroke of a history receives.
\<close>

definition anchor :: "home \<Rightarrow> call list" where
  "anchor h =
     [ClearRect 0 0 CANVAS_WIDTH CANVAS_HEIGHT, BeginPath,
      MoveTo (fadd (fdiv CANVAS_WIDTH 2) (fst (perspective h)))
             (fadd (fdiv CANVAS_HEIGHT 2) (snd (perspective h)))]"

definition segments :: "StrokeHistory \<Rightarrow> call list" where
  "segments hist = concat (map (\<lambda>s. [LineTo (fst s) (snd s), StrokeCall]) hist)"

text \<open>
  For the examples: a canvas whose context has received nothing yet, a canvas that
  yields no 2d context, and a bounding rectangle.
\<close>

definition fresh_canvas :: canvas where
  "fresh_canvas = \<lparr>getContext = Some []\<rparr>"

definition canvas_without_context :: canvas where
  "canvas_without_context = \<lparr>getContext = None\<rparr>"

definition rect_8_100 :: DOMRect where
  "rect_8_100 = \<lparr>rect_left = 8, rect_top = 100\<rparr>"

section \<open>Properties\<close>

subsection \<open>Rounding to a double\<close>

declare ilog2.simps [simp del]

lemma ilog2_nonneg: "0 \<le> ilog2 n"
  by (induction n rule: ilog2.induct) (subst ilog2.simps, simp)

lemma ilog2_lower: "1 \<le> n \<Longrightarrow> 2 ^ nat (ilog2 n) \<le> n"
proof (induction n rule: ilog2.induct)
  case (1 n)
  show ?case
  proof (cases "n < 2")
    case True
    with "1.prems" show ?thesis by (subst ilog2.simps) simp
  next
    case False
    then have "1 \<le> n div 2" by simp
    with "1.IH" False have ih: "2 ^ nat (ilog2 (n div 2)) \<le> n div 2" by simp
    have "nat (1 + ilog2 (n div 2)) = Suc (nat (ilog2 (n div 2)))"
      using ilog2_nonneg [of "n div 2"] by simp
    then have "(2::int) ^ nat (1 + ilog2 (n div 2)) = 2 * 2 ^ nat (ilog2 (n div 2))"
      by simp
    also have "\<dots> \<le> 2 * (n div 2)" using ih by simp
    also have "\<dots> \<le> n" by simp
    finally show ?thesis using False by (subst ilog2.simps) simp
  qed
qed

lemma ilog2_less: assumes "1 \<le> n" and "n < 2 ^ k" shows "ilog2 n < int k"
proof (rule ccontr)
  assume "\<not> ilog2 n < int k"
  then have "k \<le> nat (ilog2 n)" by simp
  then have "(2::int) ^ k \<le> 2 ^ nat (ilog2 n)" by (rule power_increasing) simp
  with ilog2_lower [OF assms(1)] assms(2) show False by simp
qed

lemma exponent_less:
  assumes "0 < x" and "x < 2 ^ k" and "0 < k"
  shows "exponent x < int k"
proof (cases "1 \<le> x")
  case True
  then have "1 \<le> \<lfloor>x\<rfloor>" by simp
  moreover have "\<lfloor>x\<rfloor> < 2 ^ k"
    using assms(2) by (simp add: floor_less_iff)
  ultimately have "ilog2 \<lfloor>x\<rfloor> < int k" by (rule ilog2_less)
  with True show ?thesis by (simp add: exponent_def)
next
  case False
  have "0 \<le> ilog2 \<lfloor>1 / x\<rfloor>" by (rule ilog2_nonneg)
  with False assms(3) show ?thesis
    by (auto simp: exponent_def Let_def)
qed

lemma rne_upper: "real_of_int (rne q) \<le> q + 1 / 2"
  unfolding rne_def Let_def by (auto simp: not_less) linarith+

lemma rne_nonneg: "0 \<le> q \<Longrightarrow> 0 \<le> rne q"
  unfolding rne_def Let_def by (auto simp: not_less) 


lemma pow2_neg: "e \<le> 0 \<Longrightarrow> pow2 e = 1 / 2 ^ nat (- e)"
  by (cases "e = 0") (simp_all add: pow2_def)

lemma pow2_pos: "0 < pow2 e"
  by (simp add: pow2_def)

lemma fl_below:
  assumes "0 \<le> x" and "x < 1024" and "x < B - 1 / 2 ^ 44"
  shows "0 \<le> fl x \<and> fl x < B"
proof (cases "x = 0")
  case True
  with assms(3) show ?thesis by (simp add: fl_def)
next
  case False
  with assms(1) have pos: "0 < x" by simp
  define u where "u = max (exponent x - 52) (- 1074)"
  define n where "n = nat (- u)"
  define m where "m = rne (x / pow2 u)"
  have "exponent x < int 10"
    by (rule exponent_less [OF pos]) (use assms(2) in simp_all)
  then have u: "u \<le> - 43" by (simp add: u_def)
  then have p: "pow2 u = 1 / 2 ^ n" by (simp add: pow2_neg n_def)
  from u have n: "43 \<le> n" by (simp add: n_def)
  have "fl x = of_int m * pow2 u"
    using pos by (simp add: fl_def Let_def u_def m_def)
  then have f: "fl x = of_int m / 2 ^ n" by (simp add: p)
  have q: "x / pow2 u = x * 2 ^ n" by (simp add: p)
  have "0 \<le> x * 2 ^ n" using assms(1) by simp
  then have m0: "0 \<le> m" unfolding m_def q by (rule rne_nonneg)
  have "(2::real) ^ 43 \<le> 2 ^ n" using n by (rule power_increasing) simp
  then have h: "1 / 2 \<le> (2::real) ^ n / 2 ^ 44" by simp
  have "real_of_int m \<le> x * 2 ^ n + 1 / 2"
    unfolding m_def q by (rule rne_upper)
  also have "\<dots> \<le> x * 2 ^ n + 2 ^ n / 2 ^ 44" using h by simp
  also have "\<dots> = (x + 1 / 2 ^ 44) * 2 ^ n" by (simp add: algebra_simps)
  also have "\<dots> < B * 2 ^ n" using assms(3) by simp
  finally have "real_of_int m / 2 ^ n < B"
    by (simp add: pos_divide_less_eq)
  with m0 show ?thesis by (simp add: f)
qed

lemma double_below_one:
  assumes "double x" and "0 \<le> x" and "x < 1"
  shows "x \<le> 1 - 1 / 2 ^ 53"
proof (rule ccontr)
  assume "\<not> x \<le> 1 - 1 / 2 ^ 53"
  then have l: "1 - 1 / 2 ^ 53 < x" by simp
  then have half: "1 / 2 < x" by simp
  then have "1 \<le> 1 / x" "1 / x < 2" using assms(3) by (simp_all add: field_simps)
  then have "\<lfloor>1 / x\<rfloor> = 1" by linarith
  then have e: "exponent x = - 1"
    using assms(3) by (simp add: exponent_def ilog2.simps pow2_def)
  have f: "fl x = of_int (rne (x * 2 ^ 53)) / 2 ^ 53"
    using half by (simp add: fl_def e pow2_def Let_def)
  with assms(1) have "of_int (rne (x * 2 ^ 53)) = x * 2 ^ 53"
    by (simp add: double_def field_simps)
  moreover have "2 ^ 53 - 1 < x * 2 ^ 53" using l by (simp add: field_simps)
  moreover have "x * 2 ^ 53 < 2 ^ 53" using assms(3) by simp
  ultimately have "real_of_int (2 ^ 53 - 1) < real_of_int (rne (x * 2 ^ 53))"
    and "real_of_int (rne (x * 2 ^ 53)) < real_of_int (2 ^ 53)" by simp_all
  then have "2 ^ 53 - 1 < rne (x * 2 ^ 53)" and "rne (x * 2 ^ 53) < 2 ^ 53"
    by (simp_all only: of_int_less_iff)
  then show False by simp
qed

subsection \<open>What each handler does when both guards pass, and when one stops it\<close>

lemmas ctx_defs = clearRect_def beginPath_def moveTo_def lineTo_def stroke_def

lemma forEach_stroke_append:
  "forEach_stroke hist ctx = ctx @ concat (map (\<lambda>s. [LineTo (fst s) (snd s), StrokeCall]) hist)"
  by (induction hist arbitrary: ctx) (simp_all add: ctx_defs)

lemma surface_readyE:
  assumes "surface_ready h"
  obtains canvas ctx where "canvasRef h = Some canvas" and "getContext canvas = Some ctx"
  using assms by (auto simp: surface_ready_def split: option.splits)

lemma surface_readyI:
  "canvasRef h = Some canvas \<Longrightarrow> getContext canvas = Some ctx \<Longrightarrow> surface_ready h"
  by (simp add: surface_ready_def)

lemma calls_ready:
  "canvasRef h = Some canvas \<Longrightarrow> getContext canvas = Some ctx \<Longrightarrow> calls h = ctx"
  by (simp add: calls_def)

lemma renderEffect_ready:
  assumes "canvasRef h = Some canvas" "getContext canvas = Some ctx"
  shows "renderEffect h =
    h\<lparr>canvasRef := Some (canvas\<lparr>getContext := Some (ctx @ anchor h @ segments (strokeHistory h))\<rparr>)\<rparr>"
  using assms by (simp add: renderEffect_def Let_def ctx_defs forEach_stroke_append anchor_def segments_def)

lemma handleUndoStroke_ready:
  assumes "canvasRef h = Some canvas" "getContext canvas = Some ctx"
  shows "handleUndoStroke h =
    h\<lparr>canvasRef := Some (canvas\<lparr>getContext := Some (ctx @ anchor h @ segments (butlast (strokeHistory h)))\<rparr>),
      strokeHistory := butlast (strokeHistory h)\<rparr>"
  using assms by (simp add: handleUndoStroke_def Let_def ctx_defs forEach_stroke_append anchor_def segments_def)

lemma handleClearCanvas_ready:
  assumes "canvasRef h = Some canvas" "getContext canvas = Some ctx"
  shows "handleClearCanvas h =
    h\<lparr>canvasRef := Some (canvas\<lparr>getContext := Some (ctx @ anchor h)\<rparr>), strokeHistory := []\<rparr>"
  using assms by (simp add: handleClearCanvas_def Let_def ctx_defs anchor_def)

lemma handleMouseDown_ready:
  assumes "canvasRef h = Some canvas" "getContext canvas = Some ctx"
  shows "handleMouseDown e rect h =
    h\<lparr>canvasRef := Some (canvas\<lparr>getContext :=
          Some (ctx @ [LineTo (fsub (clientX e) (rect_left rect)) (fsub (clientY e) (rect_top rect)),
                       StrokeCall])\<rparr>),
      strokeHistory := strokeHistory h @
        [(fsub (clientX e) (rect_left rect), fsub (clientY e) (rect_top rect))]\<rparr>"
  using assms by (simp add: handleMouseDown_def Let_def ctx_defs)

lemma handleDrawRandomly_ready:
  assumes "canvasRef h = Some canvas" "getContext canvas = Some ctx"
  shows "handleDrawRandomly rx ry h =
    h\<lparr>canvasRef := Some (canvas\<lparr>getContext :=
          Some (ctx @ [LineTo (of_int \<lfloor>fmul rx CANVAS_WIDTH\<rfloor>) (of_int \<lfloor>fmul ry CANVAS_HEIGHT\<rfloor>),
                       StrokeCall])\<rparr>),
      strokeHistory := strokeHistory h @
        [(of_int \<lfloor>fmul rx CANVAS_WIDTH\<rfloor>, of_int \<lfloor>fmul ry CANVAS_HEIGHT\<rfloor>)]\<rparr>"
  using assms by (simp add: handleDrawRandomly_def Let_def ctx_defs)

lemma not_ready_cases:
  "\<not> surface_ready h \<longleftrightarrow> canvasRef h = None \<or> (\<exists>c. canvasRef h = Some c \<and> getContext c = None)"
  by (auto simp: surface_ready_def split: option.splits)

lemma not_ready_noop:
  assumes "\<not> surface_ready h"
  shows "renderEffect h = h" "handleMouseDown e rect h = h" "handleClearCanvas h = h"
    "handleUndoStroke h = h" "handleDrawRandomly rx ry h = h"
  using assms by (auto simp: not_ready_cases renderEffect_def handleMouseDown_def
      handleClearCanvas_def handleUndoStroke_def handleDrawRandomly_def)


lemma issued_append: "calls h' = calls h @ cs \<Longrightarrow> issued h h' = cs"
  by (simp add: issued_def)

lemma calls_renderEffect:
  assumes "surface_ready h"
  shows "calls (renderEffect h) = calls h @ anchor h @ segments (strokeHistory h)"
proof -
  from assms obtain canvas ctx where c: "canvasRef h = Some canvas" "getContext canvas = Some ctx"
    by (rule surface_readyE)
  show ?thesis
    by (simp add: renderEffect_ready [OF c] calls_ready [OF c]) (simp add: calls_def)
qed

lemma calls_handleUndoStroke:
  assumes "surface_ready h"
  shows "calls (handleUndoStroke h) = calls h @ anchor h @ segments (butlast (strokeHistory h))"
proof -
  from assms obtain canvas ctx where c: "canvasRef h = Some canvas" "getContext canvas = Some ctx"
    by (rule surface_readyE)
  show ?thesis
    by (simp add: handleUndoStroke_ready [OF c] calls_ready [OF c]) (simp add: calls_def)
qed

lemma state_handleUndoStroke:
  "perspective (handleUndoStroke h) = perspective h"
  "surface_ready (handleUndoStroke h) = surface_ready h"
  "surface_ready h \<Longrightarrow> strokeHistory (handleUndoStroke h) = butlast (strokeHistory h)"
  by (auto simp: handleUndoStroke_def surface_ready_def Let_def split: option.splits)

lemma anchor_cong: "perspective h' = perspective h \<Longrightarrow> anchor h' = anchor h"
  by (simp add: anchor_def)

lemma state_renderEffect:
  "perspective (renderEffect h) = perspective h"
  "strokeHistory (renderEffect h) = strokeHistory h"
  "clicked (renderEffect h) = clicked h"
  "surface_ready (renderEffect h) = surface_ready h"
  by (auto simp: renderEffect_def surface_ready_def Let_def split: option.splits)

lemma state_handlePerspectiveChange:
  "strokeHistory (handlePerspectiveChange e h) = strokeHistory h"
  "canvasRef (handlePerspectiveChange e h) = canvasRef h"
  "clicked (handlePerspectiveChange e h) = clicked h"
  "surface_ready (handlePerspectiveChange e h) = surface_ready h"
  "calls (handlePerspectiveChange e h) = calls h"
  by (simp_all add: handlePerspectiveChange_def surface_ready_def calls_def Let_def)

lemma state_handleMouseDown:
  "perspective (handleMouseDown e rect h) = perspective h"
  "surface_ready (handleMouseDown e rect h) = surface_ready h"
  "surface_ready h \<Longrightarrow>
     strokeHistory (handleMouseDown e rect h) =
       strokeHistory h @ [(fsub (clientX e) (rect_left rect), fsub (clientY e) (rect_top rect))]"
  by (auto simp: handleMouseDown_def surface_ready_def Let_def split: option.splits)

lemma state_handleDrawRandomly:
  "perspective (handleDrawRandomly rx ry h) = perspective h"
  "surface_ready (handleDrawRandomly rx ry h) = surface_ready h"
  "surface_ready h \<Longrightarrow>
     strokeHistory (handleDrawRandomly rx ry h) =
       strokeHistory h @ [(of_int \<lfloor>fmul rx CANVAS_WIDTH\<rfloor>, of_int \<lfloor>fmul ry CANVAS_HEIGHT\<rfloor>)]"
  by (auto simp: handleDrawRandomly_def surface_ready_def Let_def split: option.splits)

lemma state_handleClearCanvas:
  "perspective (handleClearCanvas h) = perspective h"
  "surface_ready (handleClearCanvas h) = surface_ready h"
  "surface_ready h \<Longrightarrow> strokeHistory (handleClearCanvas h) = []"
  by (auto simp: handleClearCanvas_def surface_ready_def Let_def split: option.splits)

lemma state_handleSaveImage:
  "perspective (handleSaveImage r h) = perspective h"
  "strokeHistory (handleSaveImage r h) = strokeHistory h"
  "canvasRef (handleSaveImage r h) = canvasRef h"
  "surface_ready (handleSaveImage r h) = surface_ready h"
  "calls (handleSaveImage r h) = calls h"
  by (auto simp: handleSaveImage_def surface_ready_def calls_def Let_def split: option.splits)

lemma surface_ready_dispatch: "surface_ready (dispatch e h) = surface_ready h"
  by (cases e)
    (simp_all add: state_renderEffect state_handlePerspectiveChange state_handleMouseDown
      state_handleUndoStroke state_handleDrawRandomly state_handleSaveImage state_handleClearCanvas)

lemma strokeHistory_dispatch_not_ready:
  "\<not> surface_ready h \<Longrightarrow> strokeHistory (dispatch e h) = strokeHistory h"
  by (cases e)
    (simp_all add: state_renderEffect state_handlePerspectiveChange state_handleSaveImage not_ready_noop)

lemma surface_ready_run: "surface_ready (run es h) = surface_ready h"
  by (induction es arbitrary: h) (simp_all add: surface_ready_dispatch)

lemma strokeHistory_run_not_ready:
  "\<not> surface_ready h \<Longrightarrow> strokeHistory (run es h) = strokeHistory h"
  by (induction es arbitrary: h) (simp_all add: surface_ready_dispatch strokeHistory_dispatch_not_ready)

lemma strokeHistory_mount: "strokeHistory (mount c) = []"
  by (simp add: mount_def state_renderEffect)

lemma perspective_mount: "perspective (mount c) = (0, 0)"
  by (simp add: mount_def state_renderEffect)

lemma ready_or_empty: "surface_ready (run es (mount c)) \<or> strokeHistory (run es (mount c)) = []"
proof (cases "surface_ready (mount c)")
  case True
  then show ?thesis by (simp add: surface_ready_run)
next
  case False
  then show ?thesis by (simp add: strokeHistory_run_not_ready strokeHistory_mount)
qed

lemma range_value_bounds: "slider_min \<le> range_value v" "range_value v \<le> slider_max"
  by (simp_all add: range_value_def slider_min_def slider_max_def)

lemma in_range_dispatch: "in_range (perspective h) \<Longrightarrow> in_range (perspective (dispatch e h))"
proof (cases e)
  case (Change s v)
  assume "in_range (perspective h)"
  with Change show ?thesis
    using range_value_bounds [of v]
    by (cases s) (simp_all add: state_renderEffect handlePerspectiveChange_def in_range_def Let_def)
qed (simp_all add: state_renderEffect state_handleMouseDown
      state_handleUndoStroke state_handleDrawRandomly state_handleSaveImage state_handleClearCanvas)

lemma in_range_run: "in_range (perspective h) \<Longrightarrow> in_range (perspective (run es h))"
  by (induction es arbitrary: h) (simp_all add: in_range_dispatch)

lemma in_range_mount: "in_range (perspective (mount c))"
  by (simp add: perspective_mount in_range_def slider_min_def slider_max_def)

lemma strokeHistory_dispatch_add:
  assumes "surface_ready h"
  shows "strokeHistory (dispatch (add_event op) h) = strokeHistory h @ [new_point op]"
  using assms
  by (cases op) (simp_all add: state_renderEffect state_handleMouseDown state_handleDrawRandomly)

lemma strokeHistory_add_points:
  assumes "surface_ready h"
  shows "strokeHistory (run (map add_event ops) h) = strokeHistory h @ map new_point ops"
  using assms
proof (induction ops arbitrary: h)
  case Nil
  then show ?case by simp
next
  case (Cons op ops)
  have "surface_ready (dispatch (add_event op) h)"
    using Cons.prems by (simp add: surface_ready_dispatch)
  from Cons.IH [OF this] show ?case
    by (simp add: strokeHistory_dispatch_add [OF Cons.prems])
qed

lemma surface_ready_mount_fresh: "surface_ready (mount (Some fresh_canvas))"
  by (simp add: mount_def state_renderEffect) (simp add: surface_ready_def fresh_canvas_def)

lemma mount_without_context:
  "mount (Some canvas_without_context) =
     \<lparr>perspective = (0, 0), strokeHistory = [], canvasRef = Some canvas_without_context, clicked = []\<rparr>"
  by (simp add: mount_def renderEffect_def canvas_without_context_def)

lemma not_ready_without_context: "\<not> surface_ready (mount (Some canvas_without_context))"
  unfolding mount_without_context surface_ready_def
  by (simp add: canvas_without_context_def)

subsection \<open>The numbers of the examples\<close>

lemma anchor_x_examples:
  "fadd (fdiv CANVAS_WIDTH 2) 0 = 400" "fadd (fdiv CANVAS_WIDTH 2) 10 = 410"
  by code_simp+

lemma anchor_y_examples:
  "fadd (fdiv CANVAS_HEIGHT 2) 0 = 300" "fadd (fdiv CANVAS_HEIGHT 2) (- 5) = 295"
  by code_simp+

lemma new_point_examples:
  "new_point (FromPointer \<lparr>clientX = 58, clientY = 150\<rparr> rect_8_100) = (50, 50)"
  "new_point (FromPointer \<lparr>clientX = 108, clientY = 220\<rparr> rect_8_100) = (100, 120)"
  "new_point (Randomly (1 / 2) (1 / 4)) = (400, 150)"
  by code_simp+

lemma random_examples:
  "double (377176468792279 / 4503599627370496)" "double (1 / 2)"
  "\<lfloor>fmul (377176468792279 / 4503599627370496) CANVAS_WIDTH\<rfloor> = 67"
  "\<lfloor>fmul (1 / 2) CANVAS_HEIGHT\<rfloor> = 300"
  by code_simp+

subsection \<open>The render effect\<close>

text \<open>
  C1. For every offset pair and every stroke history, the render effect on the canvas
  of the page (canvas reference set, 2d context at hand) issues exactly these calls, in
  this order: \<open>clearRect\<close> over the whole canvas, \<open>beginPath\<close>, \<open>moveTo\<close> to
  (canvas width / 2 + offset x, canvas height / 2 + offset y), and then for each point
  of the stroke history, in insertion order, \<open>lineTo\<close> that point followed by
  \<open>stroke\<close>. The calls are a function of the offset and the history alone, and the
  effect changes neither of the two.
\<close>

theorem renderEffect_path:
  assumes "surface_ready h"
  shows "calls (renderEffect h) =
           calls h @
           [ClearRect 0 0 CANVAS_WIDTH CANVAS_HEIGHT, BeginPath,
            MoveTo (fadd (fdiv CANVAS_WIDTH 2) (fst (perspective h)))
                   (fadd (fdiv CANVAS_HEIGHT 2) (snd (perspective h)))] @
           concat (map (\<lambda>s. [LineTo (fst s) (snd s), StrokeCall]) (strokeHistory h))
         \<and> issued h (renderEffect h) =
           [ClearRect 0 0 CANVAS_WIDTH CANVAS_HEIGHT, BeginPath,
            MoveTo (fadd (fdiv CANVAS_WIDTH 2) (fst (perspective h)))
                   (fadd (fdiv CANVAS_HEIGHT 2) (snd (perspective h)))] @
           concat (map (\<lambda>s. [LineTo (fst s) (snd s), StrokeCall]) (strokeHistory h))
         \<and> perspective (renderEffect h) = perspective h
         \<and> strokeHistory (renderEffect h) = strokeHistory h"
  using calls_renderEffect [OF assms] issued_append [OF calls_renderEffect [OF assms]]
  by (simp add: anchor_def segments_def state_renderEffect)

text \<open>
  The example of C1: offset (10, -5) and history [(50, 50), (100, 120)] on a canvas that
  has received nothing yet. The pen is put on (410, 295) and the two segments follow.
\<close>

theorem renderEffect_path_witness:
  "surface_ready \<lparr>perspective = (10, - 5), strokeHistory = [(50, 50), (100, 120)],
                   canvasRef = Some fresh_canvas, clicked = []\<rparr>
   \<and> calls (renderEffect \<lparr>perspective = (10, - 5), strokeHistory = [(50, 50), (100, 120)],
                           canvasRef = Some fresh_canvas, clicked = []\<rparr>) =
       [ClearRect 0 0 800 600, BeginPath, MoveTo 410 295,
        LineTo 50 50, StrokeCall, LineTo 100 120, StrokeCall]"
proof -
  let ?h = "\<lparr>perspective = (10, - 5), strokeHistory = [(50, 50), (100, 120)],
             canvasRef = Some fresh_canvas, clicked = []\<rparr>"
  have r: "surface_ready ?h"
    by (simp add: surface_ready_def fresh_canvas_def)
  have "calls ?h = []"
    by (simp add: calls_def fresh_canvas_def)
  with r renderEffect_path [OF r] show ?thesis
    by (simp add: anchor_x_examples anchor_y_examples) (simp add: CANVAS_WIDTH_def CANVAS_HEIGHT_def)
qed

subsection \<open>Undo\<close>

text \<open>
  C2. In every state the page reaches (any canvas reference at mount, any sequence of
  events), \<open>handleUndoStroke\<close> yields the old history without its last element: a history
  of length N \<ge> 1 becomes one of length N - 1, and the old history is the new one
  followed by the old last point; an empty history stays empty. The offset is unchanged
  by the handler in any state.
\<close>

theorem handleUndoStroke_removes_last:
  "strokeHistory (handleUndoStroke (run es (mount c))) = butlast (strokeHistory (run es (mount c)))
   \<and> (strokeHistory (run es (mount c)) \<noteq> [] \<longrightarrow>
        strokeHistory (run es (mount c)) =
          strokeHistory (handleUndoStroke (run es (mount c))) @ [last (strokeHistory (run es (mount c)))]
        \<and> length (strokeHistory (handleUndoStroke (run es (mount c)))) + 1 =
          length (strokeHistory (run es (mount c))))
   \<and> (strokeHistory (run es (mount c)) = [] \<longrightarrow>
        strokeHistory (handleUndoStroke (run es (mount c))) = [])
   \<and> perspective (handleUndoStroke h) = perspective h"
proof -
  let ?h = "run es (mount c)"
  have b: "strokeHistory (handleUndoStroke ?h) = butlast (strokeHistory ?h)"
  proof (cases "surface_ready ?h")
    case True
    then show ?thesis by (simp add: state_handleUndoStroke)
  next
    case False
    with ready_or_empty [of es c] have "strokeHistory ?h = []" by simp
    with False show ?thesis by (simp add: not_ready_noop)
  qed
  show ?thesis
    unfolding b by (simp add: state_handleUndoStroke)
qed

lemma strokeHistory_two_presses:
  "strokeHistory (run [MouseDown \<lparr>clientX = 58, clientY = 150\<rparr> rect_8_100,
                       MouseDown \<lparr>clientX = 108, clientY = 220\<rparr> rect_8_100]
                      (mount (Some fresh_canvas)))
     = [(50, 50), (100, 120)]"
proof -
  let ?ops = "[FromPointer \<lparr>clientX = 58, clientY = 150\<rparr> rect_8_100,
               FromPointer \<lparr>clientX = 108, clientY = 220\<rparr> rect_8_100]"
  have "strokeHistory (run (map add_event ?ops) (mount (Some fresh_canvas)))
        = strokeHistory (mount (Some fresh_canvas)) @ map new_point ?ops"
    by (rule strokeHistory_add_points [OF surface_ready_mount_fresh])
  moreover have "map new_point ?ops = [(50, 50), (100, 120)]"
    by (simp only: list.map new_point_examples)
  moreover have "map add_event ?ops =
      [MouseDown \<lparr>clientX = 58, clientY = 150\<rparr> rect_8_100,
       MouseDown \<lparr>clientX = 108, clientY = 220\<rparr> rect_8_100]"
    by simp
  ultimately show ?thesis
    by (simp only: strokeHistory_mount append_Nil)
qed

text \<open>
  The scenario of C2: from the empty history, two pointer presses add (50, 50) and
  (100, 120), and undo leaves [(50, 50)]; undo on the empty history of the freshly
  mounted page leaves it empty.
\<close>

theorem handleUndoStroke_removes_last_witness:
  "strokeHistory (run [MouseDown \<lparr>clientX = 58, clientY = 150\<rparr> rect_8_100,
                       MouseDown \<lparr>clientX = 108, clientY = 220\<rparr> rect_8_100] (mount (Some fresh_canvas)))
     = [(50, 50), (100, 120)]
   \<and> strokeHistory (handleUndoStroke
        (run [MouseDown \<lparr>clientX = 58, clientY = 150\<rparr> rect_8_100,
              MouseDown \<lparr>clientX = 108, clientY = 220\<rparr> rect_8_100] (mount (Some fresh_canvas))))
     = [(50, 50)]
   \<and> strokeHistory (run [] (mount (Some fresh_canvas))) = []
   \<and> strokeHistory (handleUndoStroke (run [] (mount (Some fresh_canvas)))) = []"
proof -
  let ?es = "[MouseDown \<lparr>clientX = 58, clientY = 150\<rparr> rect_8_100, MouseDown \<lparr>clientX = 108, clientY = 220\<rparr> rect_8_100]"
  note e = strokeHistory_two_presses
  have n: "strokeHistory (run [] (mount (Some fresh_canvas))) = []"
    by (simp add: strokeHistory_mount)
  have "strokeHistory (handleUndoStroke (run ?es (mount (Some fresh_canvas))))
      = butlast (strokeHistory (run ?es (mount (Some fresh_canvas))))"
    using handleUndoStroke_removes_last [of ?es "Some fresh_canvas"] by (rule conjunct1)
  then have u: "strokeHistory (handleUndoStroke (run ?es (mount (Some fresh_canvas)))) = [(50, 50)]"
    by (simp only: e butlast.simps list.distinct simp_thms if_True if_False)
  have "strokeHistory (handleUndoStroke (run [] (mount (Some fresh_canvas))))
      = butlast (strokeHistory (run [] (mount (Some fresh_canvas))))"
    using handleUndoStroke_removes_last [of "[]" "Some fresh_canvas"] by (rule conjunct1)
  then have v: "strokeHistory (handleUndoStroke (run [] (mount (Some fresh_canvas)))) = []"
    by (simp only: n butlast.simps)
  from e u n v show ?thesis by (intro conjI)
qed

text \<open>
  C8. For every state, the calls \<open>handleUndoStroke\<close> issues are exactly the calls the
  render effect issues when it then runs on the state the handler leaves: the same
  clear, the same anchor move and the same segments in the same order (the redraw of
  the history without its last point when the canvas and its context are there, no call
  otherwise). In both cases the issued calls are what was appended to the calls the
  context had received before.
\<close>

theorem undo_redraw_is_render:
  "issued h (handleUndoStroke h) =
     issued (handleUndoStroke h) (renderEffect (handleUndoStroke h))
   \<and> issued h (handleUndoStroke h) =
     (if surface_ready h then anchor h @ segments (butlast (strokeHistory h)) else [])
   \<and> calls (handleUndoStroke h) = calls h @ issued h (handleUndoStroke h)
   \<and> calls (renderEffect (handleUndoStroke h)) =
       calls (handleUndoStroke h) @ issued (handleUndoStroke h) (renderEffect (handleUndoStroke h))"
proof (cases "surface_ready h")
  case False
  then show ?thesis by (simp add: not_ready_noop issued_def)
next
  case True
  let ?h' = "handleUndoStroke h"
  have c1: "calls ?h' = calls h @ anchor h @ segments (butlast (strokeHistory h))"
    by (rule calls_handleUndoStroke [OF True])
  have r: "surface_ready ?h'"
    using True by (simp add: state_handleUndoStroke)
  have a: "anchor ?h' = anchor h"
    by (rule anchor_cong) (simp add: state_handleUndoStroke)
  have c2: "calls (renderEffect ?h') = calls ?h' @ anchor h @ segments (butlast (strokeHistory h))"
    using calls_renderEffect [OF r] True by (simp add: a state_handleUndoStroke)
  show ?thesis
    using True by (simp add: issued_append [OF c1] issued_append [OF c2] c1 c2)
qed

subsection \<open>Clear\<close>

text \<open>
  C3. In every state the page reaches (any canvas reference at mount, any sequence of
  events), \<open>handleClearCanvas\<close> yields the empty stroke history; and in any state it
  leaves both components of the offset as they were.
\<close>

theorem handleClearCanvas_empties:
  "strokeHistory (handleClearCanvas (run es (mount c))) = []
   \<and> perspective (handleClearCanvas h) = perspective h"
proof -
  let ?h = "run es (mount c)"
  have "strokeHistory (handleClearCanvas ?h) = []"
  proof (cases "surface_ready ?h")
    case True
    then show ?thesis by (simp add: state_handleClearCanvas)
  next
    case False
    with ready_or_empty [of es c] have "strokeHistory ?h = []" by simp
    with False show ?thesis by (simp add: not_ready_noop)
  qed
  then show ?thesis by (simp add: state_handleClearCanvas)
qed

subsection \<open>The offset\<close>

text \<open>
  C4. For every prior offset pair and every number \<open>v\<close>, a change event of the slider
  named \<open>perspectiveX\<close> with value \<open>v\<close> replaces the first component of the offset with
  \<open>v\<close> and leaves the second unchanged; a change event of the slider named
  \<open>perspectiveY\<close> replaces the second component and leaves the first unchanged.
\<close>

theorem handlePerspectiveChange_axis:
  "perspective (handlePerspectiveChange \<lparr>target_name = ''perspectiveX'', target_value = v\<rparr> h)
     = (v, snd (perspective h))
   \<and> perspective (handlePerspectiveChange \<lparr>target_name = ''perspectiveY'', target_value = v\<rparr> h)
     = (fst (perspective h), v)"
  by (simp add: handlePerspectiveChange_def Let_def)

text \<open>
  C6. In every state the page reaches (any canvas reference at mount, any sequence of
  events, the sliders asked for any value), each component of the offset lies between
  -200 and 200. A slider asked for 250 hands 200 to the handler, so 250 never reaches
  the state; asked for the boundary value 200 it hands over 200, which is stored.
\<close>

theorem offset_in_range:
  "in_range (perspective (run es (mount c)))
   \<and> perspective (dispatch (Change PerspectiveX 250) h) = (200, snd (perspective h))
   \<and> perspective (dispatch (Change PerspectiveX 200) h) = (200, snd (perspective h))"
  by (simp add: in_range_run in_range_mount state_renderEffect handlePerspectiveChange_def
      Let_def range_value_def slider_min_def slider_max_def)

subsection \<open>Adding points\<close>

text \<open>
  C5. For every sequence of N add-point operations (pointer press or random) on the
  canvas of the page (canvas reference set, 2d context at hand), starting from any
  history, the history afterwards is the old history followed by the N new points in
  the order of the operations: the old points are unchanged and the length has grown
  by N.
\<close>

theorem add_points_append:
  assumes "surface_ready h"
  shows "strokeHistory (run (map add_event ops) h) = strokeHistory h @ map new_point ops
         \<and> length (strokeHistory (run (map add_event ops) h)) = length (strokeHistory h) + length ops"
  using strokeHistory_add_points [OF assms, of ops]
  by simp

text \<open>
  An instance of C5: on the freshly mounted page, a pointer press at client position
  (58, 150) while the canvas is at (8, 100), then a random point from the draws 1/2
  and 1/4.
\<close>

theorem add_points_append_witness:
  "surface_ready (mount (Some fresh_canvas))
   \<and> strokeHistory (run (map add_event [FromPointer \<lparr>clientX = 58, clientY = 150\<rparr> rect_8_100,
                                          Randomly (1 / 2) (1 / 4)])
                        (mount (Some fresh_canvas))) = [(50, 50), (400, 150)]
   \<and> length (strokeHistory (run (map add_event [FromPointer \<lparr>clientX = 58, clientY = 150\<rparr> rect_8_100,
                                          Randomly (1 / 2) (1 / 4)])
                        (mount (Some fresh_canvas)))) = 2"
proof -
  let ?ops = "[FromPointer \<lparr>clientX = 58, clientY = 150\<rparr> rect_8_100, Randomly (1 / 2) (1 / 4)]"
  have "strokeHistory (run (map add_event ?ops) (mount (Some fresh_canvas)))
      = strokeHistory (mount (Some fresh_canvas)) @ map new_point ?ops"
    using add_points_append [OF surface_ready_mount_fresh, of ?ops] by (rule conjunct1)
  moreover have "map new_point ?ops = [(50, 50), (400, 150)]"
    by (simp only: list.map new_point_examples)
  ultimately have s: "strokeHistory (run (map add_event ?ops) (mount (Some fresh_canvas)))
      = [(50, 50), (400, 150)]"
    by (simp only: strokeHistory_mount append_Nil)
  have "length (strokeHistory (run (map add_event ?ops) (mount (Some fresh_canvas)))) = 2"
    by (simp only: s) simp
  with surface_ready_mount_fresh s show ?thesis
    by (intro conjI)
qed

text \<open>
  C9. For every pair of random draws \<open>rx\<close>, \<open>ry\<close> in [0, 1) (doubles, as
  \<open>Math.random()\<close> returns them), \<open>handleDrawRandomly\<close> on the canvas of the page (canvas
  reference set, 2d context at hand) appends the point
  (floor (rx * canvas width), floor (ry * canvas height)) to the history, the products
  being the double products of the source; both coordinates are integers, x in
  [0, canvas width) and y in [0, canvas height).
\<close>

theorem handleDrawRandomly_point:
  assumes "surface_ready h"
    and "double rx" and "0 \<le> rx" and "rx < 1"
    and "double ry" and "0 \<le> ry" and "ry < 1"
  shows "strokeHistory (handleDrawRandomly rx ry h) =
           strokeHistory h @ [(of_int \<lfloor>fmul rx CANVAS_WIDTH\<rfloor>, of_int \<lfloor>fmul ry CANVAS_HEIGHT\<rfloor>)]
         \<and> fst (last (strokeHistory (handleDrawRandomly rx ry h))) \<in> \<int>
         \<and> snd (last (strokeHistory (handleDrawRandomly rx ry h))) \<in> \<int>
         \<and> 0 \<le> fst (last (strokeHistory (handleDrawRandomly rx ry h)))
         \<and> fst (last (strokeHistory (handleDrawRandomly rx ry h))) < CANVAS_WIDTH
         \<and> 0 \<le> snd (last (strokeHistory (handleDrawRandomly rx ry h)))
         \<and> snd (last (strokeHistory (handleDrawRandomly rx ry h))) < CANVAS_HEIGHT"
proof -
  have s: "strokeHistory (handleDrawRandomly rx ry h) =
           strokeHistory h @ [(of_int \<lfloor>fmul rx CANVAS_WIDTH\<rfloor>, of_int \<lfloor>fmul ry CANVAS_HEIGHT\<rfloor>)]"
    by (rule state_handleDrawRandomly(3) [OF assms(1)])
  have rx: "rx \<le> 1 - 1 / 2 ^ 53"
    by (rule double_below_one [OF assms(2,3,4)])
  have ry: "ry \<le> 1 - 1 / 2 ^ 53"
    by (rule double_below_one [OF assms(5,6,7)])
  have "0 \<le> fl (rx * 800) \<and> fl (rx * 800) < 800"
    by (rule fl_below) (use assms(3) rx in simp_all)
  then have x: "0 \<le> fmul rx CANVAS_WIDTH" "fmul rx CANVAS_WIDTH < CANVAS_WIDTH"
    by (simp_all add: fmul_def CANVAS_WIDTH_def)
  have "0 \<le> fl (ry * 600) \<and> fl (ry * 600) < 600"
    by (rule fl_below) (use assms(6) ry in simp_all)
  then have y: "0 \<le> fmul ry CANVAS_HEIGHT" "fmul ry CANVAS_HEIGHT < CANVAS_HEIGHT"
    by (simp_all add: fmul_def CANVAS_HEIGHT_def)
  have ix: "0 \<le> \<lfloor>fmul rx CANVAS_WIDTH\<rfloor>" and iy: "0 \<le> \<lfloor>fmul ry CANVAS_HEIGHT\<rfloor>"
    using x(1) y(1) by simp_all
  have "real_of_int \<lfloor>fmul rx CANVAS_WIDTH\<rfloor> \<le> fmul rx CANVAS_WIDTH"
    by (rule of_int_floor_le)
  then have ux: "real_of_int \<lfloor>fmul rx CANVAS_WIDTH\<rfloor> < CANVAS_WIDTH"
    using x(2) by (rule le_less_trans)
  have "real_of_int \<lfloor>fmul ry CANVAS_HEIGHT\<rfloor> \<le> fmul ry CANVAS_HEIGHT"
    by (rule of_int_floor_le)
  then have uy: "real_of_int \<lfloor>fmul ry CANVAS_HEIGHT\<rfloor> < CANVAS_HEIGHT"
    using y(2) by (rule le_less_trans)
  show ?thesis
    unfolding s using ix iy ux uy by simp
qed

text \<open>
  An instance of C9 where the rounding of the product shows: the draw
  377176468792279 / 2^52 for x, whose exact product with 800 lies just below 67 and
  whose double product is 67, and the draw 1/2 for y. The point appended to the
  freshly mounted page is (67, 300).
\<close>

theorem handleDrawRandomly_point_witness:
  "surface_ready (mount (Some fresh_canvas))
   \<and> double (377176468792279 / 4503599627370496)
   \<and> (0::real) \<le> 377176468792279 / 4503599627370496
   \<and> (377176468792279::real) / 4503599627370496 < 1
   \<and> double (1 / 2) \<and> (0::real) \<le> 1 / 2 \<and> (1::real) / 2 < 1
   \<and> strokeHistory (handleDrawRandomly (377176468792279 / 4503599627370496) (1 / 2)
        (mount (Some fresh_canvas))) = [(67, 300)]"
proof -
  have "strokeHistory (handleDrawRandomly (377176468792279 / 4503599627370496) (1 / 2)
          (mount (Some fresh_canvas)))
      = strokeHistory (mount (Some fresh_canvas)) @
        [(of_int \<lfloor>fmul (377176468792279 / 4503599627370496) CANVAS_WIDTH\<rfloor>,
          of_int \<lfloor>fmul (1 / 2) CANVAS_HEIGHT\<rfloor>)]"
    using handleDrawRandomly_point [OF surface_ready_mount_fresh random_examples(1) _ _
        random_examples(2)]
    by simp
  then have "strokeHistory (handleDrawRandomly (377176468792279 / 4503599627370496) (1 / 2)
          (mount (Some fresh_canvas))) = [(67, 300)]"
    by (simp only: random_examples strokeHistory_mount append_Nil of_int_numeral)
  with surface_ready_mount_fresh random_examples(1,2) show ?thesis
    by simp
qed

subsection \<open>Export\<close>

text \<open>
  C10. \<open>handleSaveImage\<close> never changes the state of the page: for every state and
  every random draw, offset and stroke history are the same before and after, and so
  are the canvas reference and the calls the context has received.
\<close>

theorem handleSaveImage_state:
  "perspective (handleSaveImage r h) = perspective h
   \<and> strokeHistory (handleSaveImage r h) = strokeHistory h
   \<and> canvasRef (handleSaveImage r h) = canvasRef h
   \<and> calls (handleSaveImage r h) = calls h"
  by (simp add: state_handleSaveImage)

subsection \<open>The guards\<close>

text \<open>
  C7. When the canvas reference or its 2d context is missing, pointer press, random
  point, undo and clear leave the whole page as it is, and so does the render effect;
  export changes neither offset nor history and issues no draw call. The slider handler
  has no guard: it issues no draw call and leaves the history alone, and it replaces
  the component of the offset it is asked to replace also then.
\<close>

theorem guarded_handlers_skip:
  assumes "\<not> surface_ready h"
  shows "handleMouseDown e rect h = h
         \<and> handleDrawRandomly rx ry h = h
         \<and> handleUndoStroke h = h
         \<and> handleClearCanvas h = h
         \<and> renderEffect h = h
         \<and> perspective (handleSaveImage r h) = perspective h
         \<and> strokeHistory (handleSaveImage r h) = strokeHistory h
         \<and> calls (handleSaveImage r h) = calls h
         \<and> strokeHistory (handlePerspectiveChange ce h) = strokeHistory h
         \<and> calls (handlePerspectiveChange ce h) = calls h
         \<and> perspective (handlePerspectiveChange \<lparr>target_name = ''perspectiveX'', target_value = v\<rparr> h)
             = (v, snd (perspective h))
         \<and> perspective (handlePerspectiveChange \<lparr>target_name = ''perspectiveY'', target_value = v\<rparr> h)
             = (fst (perspective h), v)"
  using assms
  by (simp add: not_ready_noop state_handleSaveImage state_handlePerspectiveChange)
     (simp add: handlePerspectiveChange_def Let_def)

text \<open>
  An instance of C7 on the page mounted with a canvas that yields no 2d context.
\<close>

theorem guarded_handlers_skip_witness:
  "\<not> surface_ready (mount (Some canvas_without_context))
   \<and> handleMouseDown \<lparr>clientX = 58, clientY = 150\<rparr> rect_8_100 (mount (Some canvas_without_context))
       = mount (Some canvas_without_context)
   \<and> handleDrawRandomly (1 / 2) (1 / 4) (mount (Some canvas_without_context))
       = mount (Some canvas_without_context)
   \<and> handleUndoStroke (mount (Some canvas_without_context)) = mount (Some canvas_without_context)
   \<and> handleClearCanvas (mount (Some canvas_without_context)) = mount (Some canvas_without_context)
   \<and> perspective (handlePerspectiveChange \<lparr>target_name = ''perspectiveX'', target_value = 10\<rparr>
         (mount (Some canvas_without_context))) = (10, 0)"
  using not_ready_without_context
    guarded_handlers_skip [OF not_ready_without_context,
      of "\<lparr>clientX = 58, clientY = 150\<rparr>" rect_8_100 "1 / 2" "1 / 4" _ _ 10]
  by (simp add: perspective_mount)

text \<open>
  C7 as stated, with the slider handler among the operations that change nothing when
  the context is missing, fails: on the page mounted with a canvas that yields no 2d
  context, a change of the slider \<open>perspectiveX\<close> to 10 turns the offset (0, 0) into
  (10, 0).
\<close>

theorem guarded_handlers_skip_counterexample:
  "\<not> surface_ready (mount (Some canvas_without_context))
   \<and> perspective (mount (Some canvas_without_context)) = (0, 0)
   \<and> perspective (handlePerspectiveChange \<lparr>target_name = ''perspectiveX'', target_value = 10\<rparr>
         (mount (Some canvas_without_context))) = (10, 0)
   \<and> handlePerspectiveChange \<lparr>target_name = ''perspectiveX'', target_value = 10\<rparr>
         (mount (Some canvas_without_context)) \<noteq> mount (Some canvas_without_context)"
proof -
  have p: "perspective (handlePerspectiveChange \<lparr>target_name = ''perspectiveX'', target_value = 10\<rparr>
         (mount (Some canvas_without_context))) = (10, 0)"
    by (simp add: handlePerspectiveChange_def Let_def perspective_mount)
  have "handlePerspectiveChange \<lparr>target_name = ''perspectiveX'', target_value = 10\<rparr>
         (mount (Some canvas_without_context)) \<noteq> mount (Some canvas_without_context)"
  proof
    assume "handlePerspectiveChange \<lparr>target_name = ''perspectiveX'', target_value = 10\<rparr>
         (mount (Some canvas_without_context)) = mount (Some canvas_without_context)"
    then have "perspective (handlePerspectiveChange \<lparr>target_name = ''perspectiveX'', target_value = 10\<rparr>
         (mount (Some canvas_without_context))) = perspective (mount (Some canvas_without_context))"
      by (rule arg_cong)
    then show False by (simp add: p perspective_mount)
  qed
  with p not_ready_without_context show ?thesis
    by (simp add: perspective_mount)
qed

end
